theory Spec2Isabelle
  imports Main
begin

section \<open>The header \<^verbatim>\<open>Sources/nfs/include/nfs_shim.h\<close>\<close>

text \<open>
  The repository's only source file is a C header made of an include guard around ten
  \<^verbatim>\<open>#include\<close> directives. It is embedded as the list of its lines, one element per
  source line, and given meaning by a small interpreter for the preprocessor directives
  it uses.
\<close>

type_synonym name = string

text \<open>\<^verbatim>\<open>#include <h>\<close> against \<^verbatim>\<open>#include "h"\<close>.\<close>

datatype include_form = Angle | Quoted

text \<open>
  One source line. \<open>Code\<close> stands for every line that is not a preprocessor directive:
  a declaration, a definition or a statement of the C program itself.
\<close>

datatype line =
    Ifndef name
  | Define name string
  | Include include_form string
  | Endif
  | Blank
  | Code string

text \<open>The fifteen lines of the file, in order (the comment after \<^verbatim>\<open>#endif\<close> is dropped).\<close>

definition nfs_shim_h :: "line list" where
  "nfs_shim_h =
    [ Ifndef ''NFS_SHIM_H'',
      Define ''NFS_SHIM_H'' [],
      Blank,
      Include Angle ''nfsc/libnfs-raw-mount.h'',
      Include Angle ''nfsc/libnfs-raw-nfs.h'',
      Include Angle ''nfsc/libnfs-raw-nfs4.h'',
      Include Angle ''nfsc/libnfs-raw-nlm.h'',
      Include Angle ''nfsc/libnfs-raw-nsm.h'',
      Include Angle ''nfsc/libnfs-raw-portmap.h'',
      Include Angle ''nfsc/libnfs-raw-rquota.h'',
      Include Angle ''nfsc/libnfs-raw.h'',
      Include Angle ''nfsc/libnfs-zdr.h'',
      Include Angle ''nfsc/libnfs.h'',
      Blank,
      Endif ]"

text \<open>The source files of the repository, by path.\<close>

definition repository :: "(string \<times> line list) list" where
  "repository = [(''Sources/nfs/include/nfs_shim.h'', nfs_shim_h)]"


section \<open>What a file says, read off its lines\<close>

fun includes_of :: "line list \<Rightarrow> string list" where
  "includes_of [] = []"
| "includes_of (Include f h # ls) = h # includes_of ls"
| "includes_of (l # ls) = includes_of ls"

fun defines_of :: "line list \<Rightarrow> name list" where
  "defines_of [] = []"
| "defines_of (Define m b # ls) = m # defines_of ls"
| "defines_of (l # ls) = defines_of ls"

fun code_of :: "line list \<Rightarrow> string list" where
  "code_of [] = []"
| "code_of (Code c # ls) = c # code_of ls"
| "code_of (l # ls) = code_of ls"

fun conditionals_of :: "line list \<Rightarrow> name list" where
  "conditionals_of [] = []"
| "conditionals_of (Ifndef m # ls) = m # conditionals_of ls"
| "conditionals_of (l # ls) = conditionals_of ls"

fun is_directive :: "line \<Rightarrow> bool" where
  "is_directive (Code c) = False"
| "is_directive Blank = False"
| "is_directive l = True"

fun is_external_include :: "line \<Rightarrow> bool" where
  "is_external_include (Include Angle h) = True"
| "is_external_include l = False"

text \<open>
  The include-guard idiom: the file opens with \<^verbatim>\<open>#ifndef G\<close>, \<^verbatim>\<open>#define G\<close> (empty body),
  closes with \<^verbatim>\<open>#endif\<close>, and has no other conditional or definition in between.
  \<open>guard_of\<close> returns the guard macro and the guarded lines.
\<close>

fun guard_of :: "line list \<Rightarrow> (name \<times> line list) option" where
  "guard_of (Ifndef g # Define g' b # ls) =
     (if g = g' \<and> b = [] \<and> ls \<noteq> [] \<and> last ls = Endif \<and> defines_of (butlast ls) = []
         \<and> conditionals_of (butlast ls) = [] \<and> Endif \<notin> set (butlast ls)
      then Some (g, butlast ls) else None)"
| "guard_of ls = None"


section \<open>The wrapped library\<close>

text \<open>
  The headers the file includes belong to the wrapped library and are not part of the
  repository. The names below are the library's protocol families and the header that
  carries each.
\<close>

datatype family =
    Mount | NFS3 | NFS4 | NLM | NSM | Portmap | RQuota | RawRPC | ZDR | ClientAPI

fun header_of :: "family \<Rightarrow> string" where
  "header_of Mount = ''nfsc/libnfs-raw-mount.h''"
| "header_of NFS3 = ''nfsc/libnfs-raw-nfs.h''"
| "header_of NFS4 = ''nfsc/libnfs-raw-nfs4.h''"
| "header_of NLM = ''nfsc/libnfs-raw-nlm.h''"
| "header_of NSM = ''nfsc/libnfs-raw-nsm.h''"
| "header_of Portmap = ''nfsc/libnfs-raw-portmap.h''"
| "header_of RQuota = ''nfsc/libnfs-raw-rquota.h''"
| "header_of RawRPC = ''nfsc/libnfs-raw.h''"
| "header_of ZDR = ''nfsc/libnfs-zdr.h''"
| "header_of ClientAPI = ''nfsc/libnfs.h''"

definition families :: "family list" where
  "families = [Mount, NFS3, NFS4, NLM, NSM, Portmap, RQuota, RawRPC, ZDR, ClientAPI]"

definition wrapped_headers :: "string list" where
  "wrapped_headers = map header_of families"


section \<open>The translation unit and the preprocessor\<close>

text \<open>
  What is visible at a point of a translation unit: the macros defined so far (with
  their bodies) and the declarations of the program text seen so far.
\<close>

datatype entity = Macro name string | Decl string

text \<open>
  The state of a translation unit being preprocessed: the visible entities in order of
  appearance, and the log of the headers opened by \<^verbatim>\<open>#include\<close> directives.
\<close>

record tu =
  visible :: "entity list"
  included :: "string list"

fun macro_body :: "name \<Rightarrow> entity list \<Rightarrow> string option" where
  "macro_body m [] = None"
| "macro_body m (Macro m' b # es) = (if m' = m then Some b else macro_body m es)"
| "macro_body m (Decl d # es) = macro_body m es"

definition defined :: "name \<Rightarrow> entity list \<Rightarrow> bool" where
  "defined m es = (macro_body m es \<noteq> None)"

fun declarations :: "entity list \<Rightarrow> string list" where
  "declarations [] = []"
| "declarations (Decl d # es) = d # declarations es"
| "declarations (Macro m b # es) = declarations es"

datatype pp_error =
    Endif_without_if
  | Unterminated_conditional
  | Macro_redefined name

text \<open>
  The stack of open conditionals holds, for each, whether its lines are being kept; an
  entry is pushed already combined with the ones below it.
\<close>

fun active :: "bool list \<Rightarrow> bool" where
  "active [] = True"
| "active (b # stk) = b"

text \<open>
  Preprocessing the lines of one file. \<open>inc h es\<close> is what opening the external header
  \<open>h\<close> makes of the visible entities \<open>es\<close>: the wrapped headers are not in the repository,
  so their effect is a parameter. A second \<^verbatim>\<open>#define\<close> of a macro with another body is the
  redefinition error of C; an identical one is accepted.
\<close>

fun pp :: "(string \<Rightarrow> entity list \<Rightarrow> entity list) \<Rightarrow> line list \<Rightarrow> bool list \<Rightarrow> tu
    \<Rightarrow> pp_error + tu" where
  "pp inc [] stk s = (if stk = [] then Inr s else Inl Unterminated_conditional)"
| "pp inc (Ifndef m # ls) stk s =
     pp inc ls ((active stk \<and> \<not> defined m (visible s)) # stk) s"
| "pp inc (Endif # ls) stk s =
     (case stk of [] \<Rightarrow> Inl Endif_without_if | b # stk' \<Rightarrow> pp inc ls stk' s)"
| "pp inc (Define m b # ls) stk s =
     (if active stk then
        (case macro_body m (visible s) of
           None \<Rightarrow> pp inc ls stk (s\<lparr>visible := visible s @ [Macro m b]\<rparr>)
         | Some b' \<Rightarrow> if b' = b then pp inc ls stk s else Inl (Macro_redefined m))
      else pp inc ls stk s)"
| "pp inc (Include f h # ls) stk s =
     (if active stk then
        pp inc ls stk (s\<lparr>visible := inc h (visible s), included := included s @ [h]\<rparr>)
      else pp inc ls stk s)"
| "pp inc (Blank # ls) stk s = pp inc ls stk s"
| "pp inc (Code c # ls) stk s =
     (if active stk then pp inc ls stk (s\<lparr>visible := visible s @ [Decl c]\<rparr>)
      else pp inc ls stk s)"

text \<open>\<^verbatim>\<open>#include\<close> of a whole file: its conditionals open and close inside it.\<close>

definition include_file :: "(string \<Rightarrow> entity list \<Rightarrow> entity list) \<Rightarrow> line list \<Rightarrow> tu
    \<Rightarrow> pp_error + tu" where
  "include_file inc f s = pp inc f [] s"

text \<open>The same file included \<open>n\<close> times in a row.\<close>

fun include_times :: "(string \<Rightarrow> entity list \<Rightarrow> entity list) \<Rightarrow> line list \<Rightarrow> nat \<Rightarrow> tu
    \<Rightarrow> pp_error + tu" where
  "include_times inc f 0 s = Inr s"
| "include_times inc f (Suc n) s =
     (case include_file inc f s of Inl e \<Rightarrow> Inl e | Inr s' \<Rightarrow> include_times inc f n s')"

text \<open>
  Modelled from the spec: the contents of the wrapped headers, which the repository does
  not hold. Section 6 of the spec describes them by the declarations they make visible,
  so a library \<open>lib\<close> gives for each header name the entities it declares, and opening
  the header adds them to the translation unit.
\<close>

definition open_header :: "(string \<Rightarrow> entity list) \<Rightarrow> string \<Rightarrow> entity list \<Rightarrow> entity list" where
  "open_header lib h es = es @ lib h"

text \<open>Opening a list of headers one after the other.\<close>

definition open_all :: "(string \<Rightarrow> entity list \<Rightarrow> entity list) \<Rightarrow> string list \<Rightarrow> entity list
    \<Rightarrow> entity list" where
  "open_all inc hs es = foldl (\<lambda>es h. inc h es) es hs"

text \<open>An empty translation unit.\<close>

definition empty_tu :: tu where
  "empty_tu = \<lparr>visible = [], included = []\<rparr>"


text \<open>The headers that one inclusion of a file opened (none when preprocessing fails).\<close>

definition opened_by :: "(string \<Rightarrow> entity list \<Rightarrow> entity list) \<Rightarrow> line list \<Rightarrow> tu
    \<Rightarrow> string list" where
  "opened_by inc f s =
     (case include_file inc f s of
        Inl e \<Rightarrow> []
      | Inr s' \<Rightarrow> drop (length (included s)) (included s'))"




text \<open>
  A small library to run the header against: every header defines a guard macro of its
  own and declares one thing, named after the header.
\<close>

definition sample_lib :: "string \<Rightarrow> entity list" where
  "sample_lib h = [Macro (''GUARD:'' @ h) [], Decl h]"


section \<open>The two ways through the header\<close>

lemma shim_guard_undefined:
  assumes "\<not> defined ''NFS_SHIM_H'' (visible s)"
  shows "include_file inc nfs_shim_h s =
    Inr (s\<lparr>visible := open_all inc wrapped_headers (visible s @ [Macro ''NFS_SHIM_H'' []]),
           included := included s @ wrapped_headers\<rparr>)"
  using assms
  by (simp add: include_file_def nfs_shim_h_def defined_def open_all_def wrapped_headers_def
      families_def)

lemma shim_guard_defined:
  assumes "defined ''NFS_SHIM_H'' (visible s)"
  shows "include_file inc nfs_shim_h s = Inr s"
  using assms
  by (simp add: include_file_def nfs_shim_h_def)

lemma macro_body_append:
  "macro_body m (es @ es') =
     (case macro_body m es of None \<Rightarrow> macro_body m es' | Some b \<Rightarrow> Some b)"
  by (induction m es rule: macro_body.induct) simp_all

lemma defined_append:
  "defined m (es @ es') = (defined m es \<or> defined m es')"
  by (simp add: defined_def macro_body_append split: option.splits)



lemma declarations_append: "declarations (es @ es') = declarations es @ declarations es'"
  by (induction es rule: declarations.induct) simp_all

lemma open_all_Cons: "open_all inc (h # hs) es = open_all inc hs (inc h es)"
  by (simp add: open_all_def)

lemma open_all_Nil: "open_all inc [] es = es"
  by (simp add: open_all_def)

lemma open_all_open_header:
  "open_all (open_header lib) hs es = es @ concat (map lib hs)"
proof (induction hs arbitrary: es)
  case Nil
  show ?case by (simp add: open_all_Nil)
next
  case (Cons h hs)
  have step: "open_header lib h es = es @ lib h"
    by (simp add: open_header_def)
  have "open_all (open_header lib) (h # hs) es =
      open_all (open_header lib) hs (open_header lib h es)"
    by (simp add: open_all_Cons)
  also have "\<dots> = open_header lib h es @ concat (map lib hs)"
    by (rule Cons.IH)
  also have "\<dots> = es @ concat (map lib (h # hs))"
    unfolding step by simp
  finally show ?case .
qed

lemma open_all_keeps_defined:
  assumes "\<forall>h\<in>set hs. \<forall>es. defined m es \<longrightarrow> defined m (inc h es)"
    and "defined m es"
  shows "defined m (open_all inc hs es)"
  using assms
proof (induction hs arbitrary: es)
  case Nil
  then show ?case by (simp add: open_all_Nil)
next
  case (Cons h hs)
  from Cons.prems have "defined m (inc h es)" by simp
  moreover from Cons.prems have "\<forall>h\<in>set hs. \<forall>es. defined m es \<longrightarrow> defined m (inc h es)"
    by simp
  ultimately show ?case by (simp add: open_all_Cons Cons.IH)
qed

lemma family_in_families: "f \<in> set families"
  by (cases f) (simp_all add: families_def)

lemma range_header_of: "range header_of = set wrapped_headers"
  using family_in_families by (auto simp: wrapped_headers_def)

lemma includes_of_shim: "includes_of nfs_shim_h = wrapped_headers"
  by (simp add: nfs_shim_h_def wrapped_headers_def families_def)

lemma shim_never_fails: "\<exists>s'. include_file inc nfs_shim_h s = Inr s'"
  by (cases "defined ''NFS_SHIM_H'' (visible s)")
    (simp_all add: shim_guard_defined shim_guard_undefined)

lemma shim_leaves_guard_defined:
  assumes keep: "\<forall>h\<in>set wrapped_headers. \<forall>es.
      defined ''NFS_SHIM_H'' es \<longrightarrow> defined ''NFS_SHIM_H'' (inc h es)"
    and run: "include_file inc nfs_shim_h s = Inr s'"
  shows "defined ''NFS_SHIM_H'' (visible s')"
proof (cases "defined ''NFS_SHIM_H'' (visible s)")
  case True
  with run show ?thesis by (simp add: shim_guard_defined)
next
  case False
  have "defined ''NFS_SHIM_H'' (visible s @ [Macro ''NFS_SHIM_H'' []])"
    by (simp add: defined_append) (simp add: defined_def)
  then have "defined ''NFS_SHIM_H''
      (open_all inc wrapped_headers (visible s @ [Macro ''NFS_SHIM_H'' []]))"
    using keep by (rule open_all_keeps_defined [rotated])
  with run False show ?thesis by (auto simp: shim_guard_undefined)
qed

lemma include_times_guard_defined:
  "defined ''NFS_SHIM_H'' (visible s) \<Longrightarrow> include_times inc nfs_shim_h n s = Inr s"
  by (induction n) (simp_all add: shim_guard_defined)

lemma declarations_concat:
  "set (declarations (concat ess)) = (\<Union>es\<in>set ess. set (declarations es))"
  by (induction ess) (simp_all add: declarations_append)

lemma opened_by_shim:
  "opened_by inc nfs_shim_h s =
     (if defined ''NFS_SHIM_H'' (visible s) then [] else wrapped_headers)"
  by (simp add: opened_by_def shim_guard_defined shim_guard_undefined)

lemma wrapped_headers_distinct: "distinct wrapped_headers \<and> length wrapped_headers = 10"
  by (simp add: wrapped_headers_def families_def)



section \<open>Which headers the file includes\<close>

text \<open>
  C1, as stated, fails where \<^verbatim>\<open>NFS_SHIM_H\<close> is already defined at the point of inclusion:
  the guard skips lines 2 to 14, no header is opened and no declaration of the wrapped
  library is re-exported.
\<close>

theorem nfs_shim_reexport_counterexample:
  "include_file (open_header sample_lib) nfs_shim_h
       \<lparr>visible = [Macro ''NFS_SHIM_H'' [], Decl ''app''], included = [''app.h'']\<rparr> =
     Inr \<lparr>visible = [Macro ''NFS_SHIM_H'' [], Decl ''app''], included = [''app.h'']\<rparr>
   \<and> opened_by (open_header sample_lib) nfs_shim_h
       \<lparr>visible = [Macro ''NFS_SHIM_H'' [], Decl ''app''], included = [''app.h'']\<rparr> = []
   \<and> ''nfsc/libnfs-raw-mount.h'' \<in> set (declarations (sample_lib (header_of Mount)))
   \<and> ''nfsc/libnfs-raw-mount.h'' \<notin> set (declarations [Macro ''NFS_SHIM_H'' [], Decl ''app''])"
proof -
  have guard: "defined ''NFS_SHIM_H'' [Macro ''NFS_SHIM_H'' [], Decl ''app'']"
    by (simp add: defined_def)
  then have "include_file (open_header sample_lib) nfs_shim_h
       \<lparr>visible = [Macro ''NFS_SHIM_H'' [], Decl ''app''], included = [''app.h'']\<rparr> =
     Inr \<lparr>visible = [Macro ''NFS_SHIM_H'' [], Decl ''app''], included = [''app.h'']\<rparr>"
    by (simp add: shim_guard_defined)
  moreover from guard have "opened_by (open_header sample_lib) nfs_shim_h
       \<lparr>visible = [Macro ''NFS_SHIM_H'' [], Decl ''app''], included = [''app.h'']\<rparr> = []"
    by (simp add: opened_by_shim)
  moreover have "''nfsc/libnfs-raw-mount.h'' \<in> set (declarations (sample_lib (header_of Mount)))"
    by (simp add: sample_lib_def)
  moreover have
    "''nfsc/libnfs-raw-mount.h'' \<notin> set (declarations [Macro ''NFS_SHIM_H'' [], Decl ''app''])"
    by simp
  ultimately show ?thesis by simp
qed

text \<open>
  C1, amended. The \<^verbatim>\<open>#include\<close> directives of \<^verbatim>\<open>nfs_shim.h\<close> name exactly the headers of
  the ten protocol families of the wrapped library (mount, NFS v3, NFS v4, NLM, NSM,
  portmap, remote quota, raw RPC, ZDR, client API), each once and nothing else.
  Included at a point where \<^verbatim>\<open>NFS_SHIM_H\<close> is not already defined, the file opens exactly
  these ten headers and the declarations it adds are exactly the declarations of the
  ten. In no translation unit does the file open a header outside these ten.
\<close>

theorem nfs_shim_reexports_wrapped_headers:
  "set (includes_of nfs_shim_h) = range header_of
   \<and> distinct (includes_of nfs_shim_h)
   \<and> length (includes_of nfs_shim_h) = 10
   \<and> (\<not> defined ''NFS_SHIM_H'' (visible s) \<longrightarrow>
        (\<exists>s'. include_file (open_header lib) nfs_shim_h s = Inr s'
           \<and> set (included s') = set (included s) \<union> range header_of
           \<and> set (declarations (visible s')) =
               set (declarations (visible s)) \<union> (\<Union>f. set (declarations (lib (header_of f))))))
   \<and> set (opened_by inc nfs_shim_h t) \<subseteq> range header_of"
proof -
  have static: "set (includes_of nfs_shim_h) = range header_of"
    by (simp add: includes_of_shim range_header_of)
  have only: "set (opened_by inc nfs_shim_h t) \<subseteq> range header_of"
    by (simp add: opened_by_shim range_header_of)
  have count: "distinct (includes_of nfs_shim_h) \<and> length (includes_of nfs_shim_h) = 10"
    by (simp add: includes_of_shim wrapped_headers_distinct)
  have decls: "(\<Union>h\<in>set wrapped_headers. set (declarations (lib h))) =
      (\<Union>f. set (declarations (lib (header_of f))))"
    unfolding range_header_of [symmetric] by auto
  have run: "\<exists>s'. include_file (open_header lib) nfs_shim_h s = Inr s'
      \<and> set (included s') = set (included s) \<union> range header_of
      \<and> set (declarations (visible s')) =
          set (declarations (visible s)) \<union> (\<Union>f. set (declarations (lib (header_of f))))"
    if fresh: "\<not> defined ''NFS_SHIM_H'' (visible s)"
  proof -
    let ?s' = "s\<lparr>visible := open_all (open_header lib) wrapped_headers
                    (visible s @ [Macro ''NFS_SHIM_H'' []]),
                 included := included s @ wrapped_headers\<rparr>"
    have "include_file (open_header lib) nfs_shim_h s = Inr ?s'"
      using fresh by (rule shim_guard_undefined)
    moreover have "set (included ?s') = set (included s) \<union> range header_of"
      by (simp add: range_header_of)
    moreover have "set (declarations (visible ?s')) =
        set (declarations (visible s)) \<union> (\<Union>f. set (declarations (lib (header_of f))))"
      by (simp add: open_all_open_header declarations_append declarations_concat
          decls [symmetric])
    ultimately show ?thesis by blast
  qed
  from static count run only show ?thesis by blast
qed

theorem nfs_shim_reexports_wrapped_headers_witness:
  "\<not> defined ''NFS_SHIM_H'' (visible empty_tu)
   \<and> (\<exists>s'. include_file (open_header sample_lib) nfs_shim_h empty_tu = Inr s'
        \<and> set (included s') = set wrapped_headers
        \<and> set (declarations (visible s')) = set wrapped_headers)"
proof -
  have fresh: "\<not> defined ''NFS_SHIM_H'' (visible empty_tu)"
    by (simp add: empty_tu_def defined_def)
  have "(\<Union>f. set (declarations (sample_lib (header_of f)))) = range header_of"
    by (auto simp: sample_lib_def)
  with fresh nfs_shim_reexports_wrapped_headers [of empty_tu sample_lib]
  show ?thesis
    by (simp add: range_header_of empty_tu_def)
qed

text \<open>
  C5. The ten headers are included in the order mount, NFS v3, NFS v4, NLM, NSM,
  portmap, remote quota, raw RPC, ZDR, and the client API \<^verbatim>\<open>libnfs.h\<close> last; when
  the guard is not yet defined they are opened, and take effect, in that order.
\<close>

theorem nfs_shim_include_order:
  "includes_of nfs_shim_h =
     [''nfsc/libnfs-raw-mount.h'', ''nfsc/libnfs-raw-nfs.h'', ''nfsc/libnfs-raw-nfs4.h'',
      ''nfsc/libnfs-raw-nlm.h'', ''nfsc/libnfs-raw-nsm.h'', ''nfsc/libnfs-raw-portmap.h'',
      ''nfsc/libnfs-raw-rquota.h'', ''nfsc/libnfs-raw.h'', ''nfsc/libnfs-zdr.h'',
      ''nfsc/libnfs.h'']
   \<and> includes_of nfs_shim_h =
       map header_of [Mount, NFS3, NFS4, NLM, NSM, Portmap, RQuota, RawRPC, ZDR, ClientAPI]
   \<and> hd (includes_of nfs_shim_h) = header_of Mount
   \<and> last (includes_of nfs_shim_h) = ''nfsc/libnfs.h''
   \<and> (\<not> defined ''NFS_SHIM_H'' (visible s) \<longrightarrow>
        include_file inc nfs_shim_h s =
          Inr (s\<lparr>visible :=
                   inc (header_of ClientAPI) (inc (header_of ZDR) (inc (header_of RawRPC)
                   (inc (header_of RQuota) (inc (header_of Portmap) (inc (header_of NSM)
                   (inc (header_of NLM) (inc (header_of NFS4) (inc (header_of NFS3)
                   (inc (header_of Mount) (visible s @ [Macro ''NFS_SHIM_H'' []])))))))))),
                 included := included s @
                   map header_of
                     [Mount, NFS3, NFS4, NLM, NSM, Portmap, RQuota, RawRPC, ZDR, ClientAPI]\<rparr>))"
proof -
  have static: "includes_of nfs_shim_h =
      map header_of [Mount, NFS3, NFS4, NLM, NSM, Portmap, RQuota, RawRPC, ZDR, ClientAPI]"
    by (simp add: nfs_shim_h_def)
  have run: "include_file inc nfs_shim_h s =
      Inr (s\<lparr>visible :=
               inc (header_of ClientAPI) (inc (header_of ZDR) (inc (header_of RawRPC)
               (inc (header_of RQuota) (inc (header_of Portmap) (inc (header_of NSM)
               (inc (header_of NLM) (inc (header_of NFS4) (inc (header_of NFS3)
               (inc (header_of Mount) (visible s @ [Macro ''NFS_SHIM_H'' []])))))))))),
             included := included s @
               map header_of
                 [Mount, NFS3, NFS4, NLM, NSM, Portmap, RQuota, RawRPC, ZDR, ClientAPI]\<rparr>)"
    if "\<not> defined ''NFS_SHIM_H'' (visible s)"
    using that
    by (simp add: shim_guard_undefined wrapped_headers_def families_def open_all_def)
  from run show ?thesis
    unfolding static by simp
qed

theorem nfs_shim_include_order_witness:
  "\<not> defined ''NFS_SHIM_H'' (visible empty_tu)
   \<and> include_file (open_header sample_lib) nfs_shim_h empty_tu =
       Inr \<lparr>visible = Macro ''NFS_SHIM_H'' [] #
               concat (map sample_lib
                 [''nfsc/libnfs-raw-mount.h'', ''nfsc/libnfs-raw-nfs.h'',
                  ''nfsc/libnfs-raw-nfs4.h'', ''nfsc/libnfs-raw-nlm.h'',
                  ''nfsc/libnfs-raw-nsm.h'', ''nfsc/libnfs-raw-portmap.h'',
                  ''nfsc/libnfs-raw-rquota.h'', ''nfsc/libnfs-raw.h'',
                  ''nfsc/libnfs-zdr.h'', ''nfsc/libnfs.h'']),
            included =
               [''nfsc/libnfs-raw-mount.h'', ''nfsc/libnfs-raw-nfs.h'',
                ''nfsc/libnfs-raw-nfs4.h'', ''nfsc/libnfs-raw-nlm.h'',
                ''nfsc/libnfs-raw-nsm.h'', ''nfsc/libnfs-raw-portmap.h'',
                ''nfsc/libnfs-raw-rquota.h'', ''nfsc/libnfs-raw.h'',
                ''nfsc/libnfs-zdr.h'', ''nfsc/libnfs.h'']\<rparr>"
proof -
  have fresh: "\<not> defined ''NFS_SHIM_H'' (visible empty_tu)"
    by (simp add: empty_tu_def defined_def)
  with nfs_shim_include_order [of empty_tu "open_header sample_lib"]
  show ?thesis
    by (simp add: empty_tu_def open_header_def)
qed


section \<open>The include guard\<close>

text \<open>
  C7. Whether including \<^verbatim>\<open>nfs_shim.h\<close> opens the wrapped headers is decided by the macro
  \<^verbatim>\<open>NFS_SHIM_H\<close> alone: the ten headers are opened exactly when the macro is not defined
  at the point of inclusion, and when it is already defined (by whatever code) the
  inclusion leaves the translation unit as it was and opens no header.
\<close>

theorem nfs_shim_guard_decides:
  "include_file inc nfs_shim_h s =
     Inr (if defined ''NFS_SHIM_H'' (visible s) then s
          else s\<lparr>visible := open_all inc wrapped_headers
                     (visible s @ [Macro ''NFS_SHIM_H'' []]),
                 included := included s @ wrapped_headers\<rparr>)
   \<and> (opened_by inc nfs_shim_h s = wrapped_headers) = (\<not> defined ''NFS_SHIM_H'' (visible s))
   \<and> (opened_by inc nfs_shim_h s = []) = defined ''NFS_SHIM_H'' (visible s)"
proof -
  have "wrapped_headers \<noteq> []"
    by (simp add: wrapped_headers_def families_def)
  then show ?thesis
    by (auto simp: opened_by_shim shim_guard_defined shim_guard_undefined)
qed

theorem nfs_shim_guard_decides_witness:
  "include_file (open_header sample_lib) nfs_shim_h
       \<lparr>visible = [Decl ''main'', Macro ''NFS_SHIM_H'' ''1''], included = []\<rparr> =
     Inr \<lparr>visible = [Decl ''main'', Macro ''NFS_SHIM_H'' ''1''], included = []\<rparr>
   \<and> opened_by (open_header sample_lib) nfs_shim_h
       \<lparr>visible = [Decl ''main'', Macro ''NFS_SHIM_H'' ''1''], included = []\<rparr> = []
   \<and> opened_by (open_header sample_lib) nfs_shim_h
       \<lparr>visible = [Decl ''main''], included = []\<rparr> = wrapped_headers"
proof -
  have yes: "defined ''NFS_SHIM_H'' [Decl ''main'', Macro ''NFS_SHIM_H'' ''1'']"
    by (simp add: defined_def)
  have no: "\<not> defined ''NFS_SHIM_H'' [Decl ''main'']"
    by (simp add: defined_def)
  from yes no
    nfs_shim_guard_decides [of "open_header sample_lib"
      "\<lparr>visible = [Decl ''main'', Macro ''NFS_SHIM_H'' ''1''], included = []\<rparr>"]
    nfs_shim_guard_decides [of "open_header sample_lib"
      "\<lparr>visible = [Decl ''main''], included = []\<rparr>"]
  show ?thesis by simp
qed

text \<open>
  C4. Inclusion is idempotent. Including \<^verbatim>\<open>nfs_shim.h\<close> \<open>n\<close> times in a row, for any
  \<open>n \<ge> 1\<close>, leaves the translation unit exactly as including it once does: after the
  first inclusion \<^verbatim>\<open>NFS_SHIM_H\<close> is defined, and every further inclusion changes nothing
  and opens no header. The wrapped headers are taken not to undefine \<^verbatim>\<open>NFS_SHIM_H\<close>.
\<close>

theorem nfs_shim_inclusion_idempotent:
  assumes "1 \<le> n"
    and "\<forall>h\<in>set wrapped_headers. \<forall>es.
      defined ''NFS_SHIM_H'' es \<longrightarrow> defined ''NFS_SHIM_H'' (inc h es)"
  shows "include_times inc nfs_shim_h n s = include_times inc nfs_shim_h 1 s
    \<and> include_times inc nfs_shim_h n s = include_file inc nfs_shim_h s
    \<and> (\<exists>s'. include_file inc nfs_shim_h s = Inr s'
          \<and> defined ''NFS_SHIM_H'' (visible s')
          \<and> include_file inc nfs_shim_h s' = Inr s'
          \<and> opened_by inc nfs_shim_h s' = [])"
proof -
  obtain s' where once: "include_file inc nfs_shim_h s = Inr s'"
    using shim_never_fails by blast
  have guard: "defined ''NFS_SHIM_H'' (visible s')"
    using assms(2) once by (rule shim_leaves_guard_defined)
  from \<open>1 \<le> n\<close> obtain k where n: "n = Suc k"
    by (cases n) simp_all
  have "include_times inc nfs_shim_h n s = include_times inc nfs_shim_h k s'"
    by (simp add: n once)
  also have "\<dots> = Inr s'"
    using guard by (rule include_times_guard_defined)
  finally have many: "include_times inc nfs_shim_h n s = Inr s'" .
  have one: "include_times inc nfs_shim_h 1 s = Inr s'"
    by (simp add: once)
  have again: "include_file inc nfs_shim_h s' = Inr s'"
    using guard by (rule shim_guard_defined)
  have "opened_by inc nfs_shim_h s' = []"
    using guard by (simp add: opened_by_shim)
  with many one once guard again show ?thesis by simp
qed

theorem nfs_shim_inclusion_idempotent_witness:
  "(1::nat) \<le> 3
   \<and> \<not> (\<exists>h es. h \<in> set wrapped_headers \<and> defined ''NFS_SHIM_H'' es
          \<and> \<not> defined ''NFS_SHIM_H'' (open_header sample_lib h es))
   \<and> include_times (open_header sample_lib) nfs_shim_h 3 empty_tu =
       include_file (open_header sample_lib) nfs_shim_h empty_tu
   \<and> include_times (open_header sample_lib) nfs_shim_h 3 empty_tu =
       Inr \<lparr>visible = Macro ''NFS_SHIM_H'' [] # concat (map sample_lib wrapped_headers),
            included = wrapped_headers\<rparr>"
proof -
  have keep: "\<forall>h\<in>set wrapped_headers. \<forall>es.
      defined ''NFS_SHIM_H'' es \<longrightarrow> defined ''NFS_SHIM_H'' (open_header sample_lib h es)"
    by (simp add: open_header_def defined_append)
  have n: "(1::nat) \<le> 3" by simp
  have fresh: "\<not> defined ''NFS_SHIM_H'' (visible empty_tu)"
    by (simp add: empty_tu_def defined_def)
  have once: "include_file (open_header sample_lib) nfs_shim_h empty_tu =
      Inr \<lparr>visible = Macro ''NFS_SHIM_H'' [] # concat (map sample_lib wrapped_headers),
           included = wrapped_headers\<rparr>"
    using fresh by (simp add: shim_guard_undefined open_all_open_header empty_tu_def)
  have lib: "\<not> (\<exists>h es. h \<in> set wrapped_headers \<and> defined ''NFS_SHIM_H'' es
      \<and> \<not> defined ''NFS_SHIM_H'' (open_header sample_lib h es))"
    using keep by blast
  from nfs_shim_inclusion_idempotent [OF n keep, of empty_tu] once lib
  show ?thesis by simp
qed


section \<open>Visibility and redefinition\<close>








section \<open>The file adds nothing of its own\<close>

text \<open>
  C3, as stated, fails for the same reason: with \<^verbatim>\<open>NFS_SHIM_H\<close> already defined (here as
  by \<^verbatim>\<open>-DNFS_SHIM_H\<close>), the declarations visible after the inclusion are not those of the
  ten wrapped headers; none is.
\<close>

theorem nfs_shim_entities_counterexample:
  "include_file (open_header sample_lib) nfs_shim_h
       \<lparr>visible = [Macro ''NFS_SHIM_H'' ''1''], included = []\<rparr> =
     Inr \<lparr>visible = [Macro ''NFS_SHIM_H'' ''1''], included = []\<rparr>
   \<and> declarations [Macro ''NFS_SHIM_H'' ''1''] = []
   \<and> declarations (concat (map sample_lib wrapped_headers)) = wrapped_headers
   \<and> wrapped_headers \<noteq> []
   \<and> declarations [Macro ''NFS_SHIM_H'' ''1''] \<noteq>
       declarations (concat (map sample_lib wrapped_headers))"
proof -
  have "defined ''NFS_SHIM_H'' [Macro ''NFS_SHIM_H'' ''1'']"
    by (simp add: defined_def)
  then have "include_file (open_header sample_lib) nfs_shim_h
       \<lparr>visible = [Macro ''NFS_SHIM_H'' ''1''], included = []\<rparr> =
     Inr \<lparr>visible = [Macro ''NFS_SHIM_H'' ''1''], included = []\<rparr>"
    by (simp add: shim_guard_defined)
  moreover have "declarations (concat (map sample_lib wrapped_headers)) = wrapped_headers"
    by (simp add: wrapped_headers_def families_def sample_lib_def)
  moreover have "wrapped_headers \<noteq> []"
    by (simp add: wrapped_headers_def families_def)
  ultimately show ?thesis by simp
qed

text \<open>
  C3, amended. The file holds no program text of its own, one macro definition (the
  guard) and one conditional (on the guard). In every translation unit, what the
  inclusion adds is: nothing, where \<^verbatim>\<open>NFS_SHIM_H\<close> is already defined; and otherwise the
  macro \<^verbatim>\<open>NFS_SHIM_H\<close> followed by the entities of the ten wrapped headers, unchanged
  and in order, so that the declarations visible afterwards are those that opening the
  ten headers directly would give.
\<close>

theorem nfs_shim_adds_nothing_of_its_own:
  "code_of nfs_shim_h = []
   \<and> defines_of nfs_shim_h = [''NFS_SHIM_H'']
   \<and> conditionals_of nfs_shim_h = [''NFS_SHIM_H'']
   \<and> (defined ''NFS_SHIM_H'' (visible s) \<longrightarrow>
        include_file (open_header lib) nfs_shim_h s = Inr s)
   \<and> (\<not> defined ''NFS_SHIM_H'' (visible s) \<longrightarrow>
        (\<exists>s'. include_file (open_header lib) nfs_shim_h s = Inr s'
           \<and> visible s' =
               visible s @ Macro ''NFS_SHIM_H'' [] # concat (map lib wrapped_headers)
           \<and> set (visible s') =
               set (visible s) \<union> {Macro ''NFS_SHIM_H'' []}
                 \<union> (\<Union>h\<in>set wrapped_headers. set (lib h))
           \<and> declarations (visible s') =
               declarations (open_all (open_header lib) wrapped_headers (visible s))))"
proof -
  have static: "code_of nfs_shim_h = [] \<and> defines_of nfs_shim_h = [''NFS_SHIM_H'']
      \<and> conditionals_of nfs_shim_h = [''NFS_SHIM_H'']"
    by (simp add: nfs_shim_h_def)
  have skip: "include_file (open_header lib) nfs_shim_h s = Inr s"
    if "defined ''NFS_SHIM_H'' (visible s)"
    using that by (rule shim_guard_defined)
  have run: "\<exists>s'. include_file (open_header lib) nfs_shim_h s = Inr s'
      \<and> visible s' = visible s @ Macro ''NFS_SHIM_H'' [] # concat (map lib wrapped_headers)
      \<and> set (visible s') =
          set (visible s) \<union> {Macro ''NFS_SHIM_H'' []}
            \<union> (\<Union>h\<in>set wrapped_headers. set (lib h))
      \<and> declarations (visible s') =
          declarations (open_all (open_header lib) wrapped_headers (visible s))"
    if fresh: "\<not> defined ''NFS_SHIM_H'' (visible s)"
  proof -
    let ?es = "visible s @ Macro ''NFS_SHIM_H'' [] # concat (map lib wrapped_headers)"
    have "include_file (open_header lib) nfs_shim_h s =
        Inr (s\<lparr>visible := ?es, included := included s @ wrapped_headers\<rparr>)"
      using fresh by (simp add: shim_guard_undefined open_all_open_header)
    moreover have "set ?es = set (visible s) \<union> {Macro ''NFS_SHIM_H'' []}
        \<union> (\<Union>h\<in>set wrapped_headers. set (lib h))"
      by auto
    moreover have "declarations ?es =
        declarations (open_all (open_header lib) wrapped_headers (visible s))"
      by (simp add: open_all_open_header declarations_append)
    ultimately show ?thesis by simp
  qed
  from static skip run show ?thesis by blast
qed

theorem nfs_shim_adds_nothing_of_its_own_witness:
  "\<not> defined ''NFS_SHIM_H'' (visible \<lparr>visible = [Decl ''main''], included = []\<rparr>)
   \<and> (\<exists>s'. include_file (open_header sample_lib) nfs_shim_h
              \<lparr>visible = [Decl ''main''], included = []\<rparr> = Inr s'
        \<and> visible s' =
            Decl ''main'' # Macro ''NFS_SHIM_H'' [] # concat (map sample_lib wrapped_headers)
        \<and> declarations (visible s') = ''main'' # wrapped_headers)"
proof -
  have fresh: "\<not> defined ''NFS_SHIM_H'' (visible \<lparr>visible = [Decl ''main''], included = []\<rparr>)"
    by (simp add: defined_def)
  have "declarations (concat (map sample_lib wrapped_headers)) = wrapped_headers"
    by (simp add: wrapped_headers_def families_def sample_lib_def)
  with fresh
    nfs_shim_adds_nothing_of_its_own
      [of "\<lparr>visible = [Decl ''main''], included = []\<rparr>" sample_lib]
  show ?thesis
    by (auto simp: open_all_open_header declarations_append)
qed


lemma shim_provenance:
  "\<exists>s'. include_file (open_header lib) nfs_shim_h s = Inr s'
     \<and> set (visible s') \<subseteq>
         set (visible s) \<union> {Macro ''NFS_SHIM_H'' []}
           \<union> (\<Union>h\<in>set wrapped_headers. set (lib h))"
proof (cases "defined ''NFS_SHIM_H'' (visible s)")
  case True
  then have "include_file (open_header lib) nfs_shim_h s = Inr s"
    by (rule shim_guard_defined)
  then show ?thesis by auto
next
  case False
  then have "include_file (open_header lib) nfs_shim_h s =
      Inr (s\<lparr>visible := (visible s @ [Macro ''NFS_SHIM_H'' []])
                 @ concat (map lib wrapped_headers),
               included := included s @ wrapped_headers\<rparr>)"
    by (simp add: shim_guard_undefined open_all_open_header)
  then show ?thesis by auto
qed


text \<open>
  C6, as stated, fails: the content of the file is not only textual inclusion. Three of
  its directives, \<^verbatim>\<open>#ifndef\<close>, \<^verbatim>\<open>#define\<close> and \<^verbatim>\<open>#endif\<close>, are not inclusions, and the
  conditional is control flow of the file's own: the same inclusion opens no header in
  one translation unit and ten in another.
\<close>

theorem nfs_shim_only_inclusions_counterexample:
  "\<not> list_all is_external_include (filter is_directive nfs_shim_h)
   \<and> conditionals_of nfs_shim_h = [''NFS_SHIM_H'']
   \<and> opened_by (open_header sample_lib) nfs_shim_h
       \<lparr>visible = [Macro ''NFS_SHIM_H'' []], included = []\<rparr> = []
   \<and> length (opened_by (open_header sample_lib) nfs_shim_h
       \<lparr>visible = [], included = []\<rparr>) = 10"
proof -
  have "\<not> list_all is_external_include (filter is_directive nfs_shim_h)"
    by (simp add: nfs_shim_h_def)
  moreover have "conditionals_of nfs_shim_h = [''NFS_SHIM_H'']"
    by (simp add: nfs_shim_h_def)
  moreover have "opened_by (open_header sample_lib) nfs_shim_h
       \<lparr>visible = [Macro ''NFS_SHIM_H'' []], included = []\<rparr> = []"
    by (simp add: opened_by_shim defined_def)
  moreover have "length (opened_by (open_header sample_lib) nfs_shim_h
       \<lparr>visible = [], included = []\<rparr>) = 10"
    by (simp add: opened_by_shim defined_def wrapped_headers_distinct)
  ultimately show ?thesis by simp
qed

text \<open>
  C6, amended. The repository holds one source file, \<^verbatim>\<open>nfs_shim.h\<close>, and that file's
  content consists only of an include guard on \<^verbatim>\<open>NFS_SHIM_H\<close> around textual inclusion of
  external declarations: its first two lines and its last are the guard, every line
  between them is blank or an \<^verbatim>\<open>#include <...>\<close> of one of the ten wrapped headers, and
  no line is program text. It has no internal components or data flow, and no control
  flow but the guard's conditional: past the guard its effect is that of opening the ten
  headers one after the other, whatever they hold.
\<close>

theorem repository_is_one_header_of_inclusions:
  "map snd repository = [nfs_shim_h]
   \<and> code_of nfs_shim_h = []
   \<and> guard_of nfs_shim_h = Some (''NFS_SHIM_H'', butlast (drop 2 nfs_shim_h))
   \<and> list_all (\<lambda>l. l = Blank \<or> is_external_include l) (butlast (drop 2 nfs_shim_h))
   \<and> includes_of (butlast (drop 2 nfs_shim_h)) = wrapped_headers
   \<and> filter is_directive nfs_shim_h =
       Ifndef ''NFS_SHIM_H'' # Define ''NFS_SHIM_H'' []
         # map (Include Angle) wrapped_headers @ [Endif]
   \<and> include_file inc nfs_shim_h s =
       Inr (if defined ''NFS_SHIM_H'' (visible s) then s
            else s\<lparr>visible := open_all inc (includes_of nfs_shim_h)
                       (visible s @ [Macro ''NFS_SHIM_H'' []]),
                   included := included s @ includes_of nfs_shim_h\<rparr>)"
proof -
  have files: "map snd repository = [nfs_shim_h]"
    by (simp add: repository_def)
  have lines: "code_of nfs_shim_h = []
      \<and> guard_of nfs_shim_h = Some (''NFS_SHIM_H'', butlast (drop 2 nfs_shim_h))
      \<and> list_all (\<lambda>l. l = Blank \<or> is_external_include l) (butlast (drop 2 nfs_shim_h))"
    by (simp add: nfs_shim_h_def)
  have names: "includes_of (butlast (drop 2 nfs_shim_h)) = wrapped_headers
      \<and> filter is_directive nfs_shim_h =
          Ifndef ''NFS_SHIM_H'' # Define ''NFS_SHIM_H'' []
            # map (Include Angle) wrapped_headers @ [Endif]"
    by (simp add: nfs_shim_h_def wrapped_headers_def families_def)
  have run: "include_file inc nfs_shim_h s =
      Inr (if defined ''NFS_SHIM_H'' (visible s) then s
           else s\<lparr>visible := open_all inc (includes_of nfs_shim_h)
                      (visible s @ [Macro ''NFS_SHIM_H'' []]),
                  included := included s @ includes_of nfs_shim_h\<rparr>)"
    by (simp add: includes_of_shim shim_guard_defined shim_guard_undefined)
  from files lines names run show ?thesis by simp
qed

theorem repository_is_one_header_of_inclusions_witness:
  "include_file (open_header sample_lib) nfs_shim_h empty_tu =
     Inr \<lparr>visible = Macro ''NFS_SHIM_H'' [] # concat (map sample_lib wrapped_headers),
          included = wrapped_headers\<rparr>
   \<and> include_file (open_header sample_lib) nfs_shim_h
       \<lparr>visible = [Macro ''NFS_SHIM_H'' []], included = []\<rparr> =
     Inr \<lparr>visible = [Macro ''NFS_SHIM_H'' []], included = []\<rparr>"
proof -
  have fresh: "\<not> defined ''NFS_SHIM_H'' (visible empty_tu)"
    by (simp add: empty_tu_def defined_def)
  have guard: "defined ''NFS_SHIM_H'' [Macro ''NFS_SHIM_H'' []]"
    by (simp add: defined_def)
  from fresh guard
    repository_is_one_header_of_inclusions [of "open_header sample_lib" empty_tu]
    repository_is_one_header_of_inclusions [of "open_header sample_lib"
      "\<lparr>visible = [Macro ''NFS_SHIM_H'' []], included = []\<rparr>"]
  show ?thesis
    by (simp add: includes_of_shim open_all_open_header empty_tu_def)
qed



text \<open>
  C9. The file has no construct of its own that could carry a concurrency property:
  whatever counts as such a construct (\<open>is_conc\<close>), no line of the file is one, every
  line being blank or a preprocessor directive. Every entity reachable through the
  inclusion, other than the guard macro, was visible before or belongs to one of the
  ten wrapped headers.
\<close>

theorem nfs_shim_no_concurrency_construct:
  "filter is_conc (code_of nfs_shim_h) = []
   \<and> list_all (\<lambda>l. l = Blank \<or> is_directive l) nfs_shim_h
   \<and> (\<exists>s'. include_file (open_header lib) nfs_shim_h s = Inr s'
        \<and> (\<forall>e\<in>set (visible s'). e = Macro ''NFS_SHIM_H'' [] \<or> e \<in> set (visible s)
              \<or> (\<exists>h\<in>set wrapped_headers. e \<in> set (lib h))))"
proof -
  have static: "filter is_conc (code_of nfs_shim_h) = []
      \<and> list_all (\<lambda>l. l = Blank \<or> is_directive l) nfs_shim_h"
    by (simp add: nfs_shim_h_def)
  obtain s' where run: "include_file (open_header lib) nfs_shim_h s = Inr s'"
    and sub: "set (visible s') \<subseteq> set (visible s) \<union> {Macro ''NFS_SHIM_H'' []}
      \<union> (\<Union>h\<in>set wrapped_headers. set (lib h))"
    using shim_provenance by blast
  from sub have "\<forall>e\<in>set (visible s'). e = Macro ''NFS_SHIM_H'' [] \<or> e \<in> set (visible s)
      \<or> (\<exists>h\<in>set wrapped_headers. e \<in> set (lib h))"
    by auto
  with static run show ?thesis by blast
qed

theorem nfs_shim_no_concurrency_construct_witness:
  "(\<exists>s'. include_file (open_header sample_lib) nfs_shim_h empty_tu = Inr s'
      \<and> Decl ''nfsc/libnfs-raw.h'' \<in> set (visible s'))
   \<and> Decl ''nfsc/libnfs-raw.h'' \<notin> set (visible empty_tu)
   \<and> (\<exists>h. h \<in> set wrapped_headers \<and> Decl ''nfsc/libnfs-raw.h'' \<in> set (sample_lib h))"
proof -
  obtain s' where run: "include_file (open_header sample_lib) nfs_shim_h empty_tu = Inr s'"
    and from_lib: "\<forall>e\<in>set (visible s'). e = Macro ''NFS_SHIM_H'' []
        \<or> e \<in> set (visible empty_tu)
        \<or> (\<exists>h\<in>set wrapped_headers. e \<in> set (sample_lib h))"
    using nfs_shim_no_concurrency_construct [of "\<lambda>c. True" sample_lib empty_tu]
    by blast
  have fresh: "\<not> defined ''NFS_SHIM_H'' (visible empty_tu)"
    by (simp add: empty_tu_def defined_def)
  have "include_file (open_header sample_lib) nfs_shim_h empty_tu =
      Inr \<lparr>visible = Macro ''NFS_SHIM_H'' [] # concat (map sample_lib wrapped_headers),
           included = wrapped_headers\<rparr>"
    using fresh by (simp add: shim_guard_undefined open_all_open_header empty_tu_def)
  with run have "visible s' = Macro ''NFS_SHIM_H'' [] # concat (map sample_lib wrapped_headers)"
    by auto
  then have seen: "Decl ''nfsc/libnfs-raw.h'' \<in> set (visible s')"
    by (simp add: wrapped_headers_def families_def sample_lib_def)
  have before: "Decl ''nfsc/libnfs-raw.h'' \<notin> set (visible empty_tu)"
    by (simp add: empty_tu_def)
  from from_lib seen before
  have "\<exists>h. h \<in> set wrapped_headers \<and> Decl ''nfsc/libnfs-raw.h'' \<in> set (sample_lib h)"
    by blast
  with run seen before show ?thesis by blast
qed

end
